theory Spec2Isabelle
  imports Complex_Main "HOL-Library.Char_ord" "HOL-Library.List_Lexorder" "HOL-Library.Multiset"
begin

section \<open>Data model (src/schemas.py, as read by src/main.py)\<close>

text \<open>
  Documents are read with \<^verbatim>\<open>.get\<close>: a field the code reads with a default
  (or tests against \<^verbatim>\<open>None\<close>) is an \<open>option\<close>, \<open>None\<close> meaning that the
  document has no such field. Times are the \<^verbatim>\<open>HH:MM\<close> strings of the schema,
  compared as Python compares strings (lexicographically, a proper prefix first).
  Floats are idealised as reals.
\<close>

text \<open>A naive \<^verbatim>\<open>datetime\<close>: the day as \<^verbatim>\<open>date.toordinal()\<close> and the
  microsecond of that day.\<close>

record datetime =
  ordinal :: nat
  usec :: nat

record staff_availability =
  av_day :: string
  av_start :: string
  av_end :: string

record staff =
  staff_id :: string
  role :: string
  skills :: "string list option"
  max_hours_per_week :: "int option"
  preferred_shift :: "string option"
  availability :: "staff_availability list option"
  is_active :: bool

record shift =
  shift_id :: string
  date :: datetime
  shift_type :: string
  start_time :: string
  end_time :: string
  required_role :: string
  required_count :: "int option"
  assigned_staff_ids :: "string list option"
  status :: string

text \<open>A booked window of the tracker (the dict appended to \<^verbatim>\<open>assignments[sid]\<close>).\<close>

record slot =
  slot_date :: datetime
  slot_start :: string
  slot_end :: string

text \<open>The two dictionaries of a pass: \<^verbatim>\<open>staff_hours\<close> and \<^verbatim>\<open>assignments\<close>.\<close>

record tracker =
  staff_hours :: "string \<rightharpoonup> real"
  assignments :: "string \<rightharpoonup> slot list"

text \<open>The \<^verbatim>\<open>$set\<close> document of one \<^verbatim>\<open>update_one\<close>, with the id it matches on.\<close>

record mutation =
  mut_shift_id :: string
  mut_assigned_staff_ids :: "string list"
  mut_status :: string
  mut_updated_at :: datetime

section \<open>Time windows\<close>

definition time_overlap :: "string \<Rightarrow> string \<Rightarrow> string \<Rightarrow> string \<Rightarrow> bool" where
  "time_overlap s1 e1 s2 e2 = (\<not> (e1 \<le> s2 \<or> e2 \<le> s1))"

subsection \<open>\<^verbatim>\<open>datetime.strptime(_, "%H:%M")\<close>\<close>

text \<open>
  The format compiles to the regular expression
  \<^verbatim>\<open>(2[0-3]|[0-1]\d|\d):([0-5]\d|\d)\<close>, matched at the start of the string with
  the alternatives tried in order; text left after the match is a
  \<^verbatim>\<open>ValueError\<close>. \<open>None\<close> is that error.
\<close>

definition is_digit :: "char \<Rightarrow> bool" where
  "is_digit c = (CHR ''0'' \<le> c \<and> c \<le> CHR ''9'')"

definition digit_val :: "char \<Rightarrow> nat" where
  "digit_val c = of_char c - 48"

text \<open>The ways the hour group can match, in the order the matcher tries them,
  each with the text after it.\<close>

definition alts_H :: "string \<Rightarrow> (nat \<times> string) list" where
  "alts_H s =
     (case s of
        c1 # c2 # r \<Rightarrow>
          (if c1 = CHR ''2'' \<and> CHR ''0'' \<le> c2 \<and> c2 \<le> CHR ''3''
           then [(20 + digit_val c2, r)] else []) @
          (if (c1 = CHR ''0'' \<or> c1 = CHR ''1'') \<and> is_digit c2
           then [(10 * digit_val c1 + digit_val c2, r)] else [])
      | _ \<Rightarrow> []) @
     (case s of
        c1 # r \<Rightarrow> (if is_digit c1 then [(digit_val c1, r)] else [])
      | [] \<Rightarrow> [])"

definition alts_M :: "string \<Rightarrow> (nat \<times> string) list" where
  "alts_M s =
     (case s of
        c1 # c2 # r \<Rightarrow>
          (if CHR ''0'' \<le> c1 \<and> c1 \<le> CHR ''5'' \<and> is_digit c2
           then [(10 * digit_val c1 + digit_val c2, r)] else [])
      | _ \<Rightarrow> []) @
     (case s of
        c1 # r \<Rightarrow> (if is_digit c1 then [(digit_val c1, r)] else [])
      | [] \<Rightarrow> [])"

definition strptime_HM :: "string \<Rightarrow> (nat \<times> nat) option" where
  "strptime_HM s =
     (case List.find
             (\<lambda>(h, r). case r of [] \<Rightarrow> False
                              | c # r' \<Rightarrow> c = CHR '':'' \<and> alts_M r' \<noteq> [])
             (alts_H s) of
        None \<Rightarrow> None
      | Some (h, r) \<Rightarrow>
          (case alts_M (tl r) of
             [] \<Rightarrow> None
           | (m, r'') # _ \<Rightarrow> if r'' = [] then Some (h, m) else None))"

text \<open>
  \<^verbatim>\<open>(en - st).seconds\<close> is the seconds field of a normalised \<^verbatim>\<open>timedelta\<close>,
  which is never negative: the difference modulo one day.
\<close>

definition timedelta_seconds :: "nat \<times> nat \<Rightarrow> nat \<times> nat \<Rightarrow> int" where
  "timedelta_seconds en st =
     ((int (fst en) * 3600 + int (snd en) * 60) - (int (fst st) * 3600 + int (snd st) * 60))
       mod 86400"

definition shift_duration_hours :: "shift \<Rightarrow> real" where
  "shift_duration_hours sh =
     (case strptime_HM (start_time sh) of
        None \<Rightarrow> 8
      | Some st \<Rightarrow>
          (case strptime_HM (end_time sh) of
             None \<Rightarrow> 8
           | Some en \<Rightarrow>
               (let diff = real_of_int (timedelta_seconds en st) / 3600
                in if diff \<le> 0 then diff + 24 else diff)))"

section \<open>Availability\<close>

text \<open>\<^verbatim>\<open>strftime("%a").lower()[:3]\<close>: \<^verbatim>\<open>date.weekday()\<close> is
  \<^verbatim>\<open>(toordinal() + 6) % 7\<close> with Monday 0.\<close>

definition day_key :: "datetime \<Rightarrow> string" where
  "day_key d = [''mon'', ''tue'', ''wed'', ''thu'', ''fri'', ''sat'', ''sun''] ! ((ordinal d + 6) mod 7)"

definition get_list :: "'a list option \<Rightarrow> 'a list" where
  "get_list v = (case v of None \<Rightarrow> [] | Some l \<Rightarrow> l)"

fun availability_loop :: "bool \<Rightarrow> shift \<Rightarrow> staff_availability list \<Rightarrow> bool" where
  "availability_loop preferred_ok sh [] = False"
| "availability_loop preferred_ok sh (a # as) =
     (if av_day a = day_key (date sh)
      then (if av_start a \<le> start_time sh \<and> av_end a \<ge> end_time sh
            then preferred_ok
            else availability_loop preferred_ok sh as)
      else availability_loop preferred_ok sh as)"

definition is_available :: "staff \<Rightarrow> shift \<Rightarrow> bool" where
  "is_available staff_doc sh =
     (let preferred_ok =
            ((preferred_shift staff_doc = None \<or> preferred_shift staff_doc = Some (shift_type sh))
             \<or> preferred_shift staff_doc = None)
      in availability_loop preferred_ok sh (get_list (availability staff_doc)))"

section \<open>Workload tracker\<close>

definition window :: "shift \<Rightarrow> slot" where
  "window sh = \<lparr>slot_date = date sh, slot_start = start_time sh, slot_end = end_time sh\<rparr>"

definition hours_of :: "tracker \<Rightarrow> string \<Rightarrow> real" where
  "hours_of tr sid = (case staff_hours tr sid of None \<Rightarrow> 0 | Some h \<Rightarrow> h)"

definition slots_of :: "tracker \<Rightarrow> string \<Rightarrow> slot list" where
  "slots_of tr sid = get_list (assignments tr sid)"

text \<open>The two statements that record one assignment (they occur twice in the source,
  in the preload and in the greedy fill).\<close>

definition book :: "tracker \<Rightarrow> string \<Rightarrow> shift \<Rightarrow> tracker" where
  "book tr sid sh =
     \<lparr>staff_hours = (staff_hours tr)(sid \<mapsto> hours_of tr sid + shift_duration_hours sh),
      assignments = (assignments tr)(sid \<mapsto> slots_of tr sid @ [window sh])\<rparr>"

definition init_tracker :: "staff list \<Rightarrow> tracker" where
  "init_tracker staff =
     \<lparr>staff_hours = foldl (\<lambda>m s. m(staff_id s \<mapsto> 0)) Map.empty staff,
      assignments = Map.empty\<rparr>"

definition truthy :: "'a list option \<Rightarrow> bool" where
  "truthy v = (case v of None \<Rightarrow> False | Some l \<Rightarrow> l \<noteq> [])"

definition preload :: "tracker \<Rightarrow> shift list \<Rightarrow> tracker" where
  "preload tr shifts =
     (let existing_assigned = filter (\<lambda>s. truthy (assigned_staff_ids s)) shifts
      in foldl (\<lambda>tr sh. foldl (\<lambda>tr sid. book tr sid sh) tr (get_list (assigned_staff_ids sh)))
           tr existing_assigned)"

fun has_overlap_loop :: "shift \<Rightarrow> slot list \<Rightarrow> bool" where
  "has_overlap_loop sh [] = False"
| "has_overlap_loop sh (slot # rest) =
     (if ordinal (slot_date slot) = ordinal (date sh)
         \<and> time_overlap (slot_start slot) (slot_end slot) (start_time sh) (end_time sh)
      then True
      else has_overlap_loop sh rest)"

definition has_overlap :: "tracker \<Rightarrow> string \<Rightarrow> shift \<Rightarrow> bool" where
  "has_overlap tr sid sh = has_overlap_loop sh (slots_of tr sid)"

section \<open>Scoring\<close>

definition score :: "tracker \<Rightarrow> staff \<Rightarrow> shift \<Rightarrow> real" where
  "score tr s sh =
     (let hours = hours_of tr (staff_id s);
          hours_left = max 0 (real_of_int (case max_hours_per_week s of None \<Rightarrow> 40 | Some m \<Rightarrow> m) - hours);
          preferred_bonus = (if preferred_shift s = Some (shift_type sh) then 1 else 0);
          skill_bonus = min 2 (real (length (get_list (skills s))) * (1 / 10))
      in hours_left + preferred_bonus + skill_bonus)"

fun scored_loop :: "tracker \<Rightarrow> shift \<Rightarrow> staff list \<Rightarrow> (real \<times> staff) list" where
  "scored_loop tr sh [] = []"
| "scored_loop tr sh (s # candidates) =
     (if \<not> is_available s sh then scored_loop tr sh candidates
      else if has_overlap tr (staff_id s) sh then scored_loop tr sh candidates
      else (score tr s sh, s) # scored_loop tr sh candidates)"

text \<open>\<^verbatim>\<open>list.sort(key=..., reverse=True)\<close>: the list is reversed, sorted by a stable
  ascending sort, and reversed again.\<close>

definition sort_reverse :: "(real \<times> staff) list \<Rightarrow> (real \<times> staff) list" where
  "sort_reverse scored = rev (sort_key fst (rev scored))"

section \<open>The assignment pass\<close>

definition staff_by_role :: "staff list \<Rightarrow> (string \<rightharpoonup> staff list)" where
  "staff_by_role staff = foldl (\<lambda>m s. m(role s \<mapsto> get_list (m (role s)) @ [s])) Map.empty staff"

fun assign_loop :: "shift \<Rightarrow> int \<Rightarrow> (real \<times> staff) list \<Rightarrow> string list \<Rightarrow> tracker \<Rightarrow> string list \<times> tracker" where
  "assign_loop sh needed [] assigned tr = (assigned, tr)"
| "assign_loop sh needed (p # scored) assigned tr =
     (if int (length assigned) \<ge> needed then (assigned, tr)
      else assign_loop sh needed scored (assigned @ [staff_id (snd p)]) (book tr (staff_id (snd p)) sh))"

text \<open>\<^verbatim>\<open>int(sh.get("required_count", 1))\<close>\<close>

definition required :: "shift \<Rightarrow> int" where
  "required sh = (case required_count sh of None \<Rightarrow> 1 | Some n \<Rightarrow> n)"

text \<open>What one iteration of the loop over the shifts leaves behind: the local list
  \<^verbatim>\<open>assigned\<close>, the fetched document as it is in memory afterwards, and the
  \<^verbatim>\<open>update_one\<close> it issued, if any.\<close>

record outcome =
  out_assigned :: "string list"
  out_doc :: shift
  out_update :: "mutation option"

text \<open>
  \<^verbatim>\<open>assigned = sh.get("assigned_staff_ids", [])\<close> is the document's own list when the
  field exists, so appending to \<^verbatim>\<open>assigned\<close> changes the document too; it is a fresh
  list only when the field is missing. The update is taken to match the document just
  fetched and to modify it (\<^verbatim>\<open>modified_count\<close> is 1).
\<close>

definition process_shift ::
    "datetime \<Rightarrow> (string \<rightharpoonup> staff list) \<Rightarrow> tracker \<Rightarrow> shift \<Rightarrow> tracker \<times> outcome" where
  "process_shift now by_role tr sh =
     (let needed = required sh;
          assigned = get_list (assigned_staff_ids sh)
      in if int (length assigned) \<ge> needed
         then (tr, \<lparr>out_assigned = assigned, out_doc = sh, out_update = None\<rparr>)
         else
           (let candidates = get_list (by_role (required_role sh));
                scored = sort_reverse (scored_loop tr sh candidates);
                (assigned', tr') = assign_loop sh needed scored assigned tr;
                doc = (case assigned_staff_ids sh of
                         None \<Rightarrow> sh
                       | Some _ \<Rightarrow> sh\<lparr>assigned_staff_ids := Some assigned'\<rparr>)
            in (tr',
                \<lparr>out_assigned = assigned', out_doc = doc,
                 out_update =
                   (if assigned' \<noteq> get_list (assigned_staff_ids doc)
                    then Some \<lparr>mut_shift_id = shift_id sh, mut_assigned_staff_ids = assigned',
                               mut_status = ''published'', mut_updated_at = now\<rparr>
                    else None)\<rparr>)))"

text \<open>The loop over the shifts; \<open>clock k\<close> is what \<^verbatim>\<open>datetime.utcnow()\<close> returns
  in iteration \<open>k\<close>.\<close>

fun shifts_loop ::
    "(nat \<Rightarrow> datetime) \<Rightarrow> nat \<Rightarrow> (string \<rightharpoonup> staff list) \<Rightarrow> tracker \<Rightarrow> shift list \<Rightarrow> outcome list" where
  "shifts_loop clock k by_role tr [] = []"
| "shifts_loop clock k by_role tr (sh # shifts) =
     (case process_shift (clock k) by_role tr sh of
        (tr', out) \<Rightarrow> out # shifts_loop clock (Suc k) by_role tr' shifts)"

definition plan_assignments :: "(nat \<Rightarrow> datetime) \<Rightarrow> shift list \<Rightarrow> staff list \<Rightarrow> outcome list" where
  "plan_assignments clock shifts staff =
     shifts_loop clock 0 (staff_by_role staff) (preload (init_tracker staff) shifts) shifts"

text \<open>The updates issued by a pass, in order.\<close>

definition updates :: "outcome list \<Rightarrow> mutation list" where
  "updates outs = List.map_filter out_update outs"

subsection \<open>The two queries\<close>

text \<open>
  The handler answers with status 500 when there is no database, and a request date
  that \<^verbatim>\<open>datetime.fromisoformat\<close> rejects ends the request before anything is
  fetched; the model starts after both. The stored collections are lists, in the
  order in which \<^verbatim>\<open>find\<close> returns the documents.
\<close>

definition dt_le :: "datetime \<Rightarrow> datetime \<Rightarrow> bool" where
  "dt_le a b = (ordinal a < ordinal b \<or> (ordinal a = ordinal b \<and> usec a \<le> usec b))"

text \<open>The request's \<^verbatim>\<open>date\<close>, already parsed by \<^verbatim>\<open>datetime.fromisoformat\<close>;
  \<open>None\<close> when the request has none (or an empty one).\<close>

definition fetch_shifts :: "datetime option \<Rightarrow> shift list \<Rightarrow> shift list" where
  "fetch_shifts req_date db_shifts =
     filter (\<lambda>sh. (status sh = ''planned'' \<or> status sh = ''published'')
                  \<and> (case req_date of
                       None \<Rightarrow> True
                     | Some start_day \<Rightarrow>
                         (let end_day = start_day\<lparr>usec := 86399999999\<rparr>
                          in dt_le start_day (date sh) \<and> dt_le (date sh) end_day)))
       db_shifts"

definition fetch_staff :: "staff list \<Rightarrow> staff list" where
  "fetch_staff db_staff = filter is_active db_staff"

definition auto_assign ::
    "(nat \<Rightarrow> datetime) \<Rightarrow> datetime option \<Rightarrow> shift list \<Rightarrow> staff list \<Rightarrow> mutation list" where
  "auto_assign clock req_date db_shifts db_staff =
     updates (plan_assignments clock (fetch_shifts req_date db_shifts) (fetch_staff db_staff))"

section \<open>Notions used in the statements\<close>

text \<open>A booked window and a shift are on the same calendar date and their times overlap:
  the test of the overlap loop.\<close>

definition conflicts :: "slot \<Rightarrow> shift \<Rightarrow> bool" where
  "conflicts slot sh =
     (ordinal (slot_date slot) = ordinal (date sh)
      \<and> time_overlap (slot_start slot) (slot_end slot) (start_time sh) (end_time sh))"

text \<open>The ids the greedy fill appends to a shift: the first candidates of the sorted
  list, as many as the shift is short of.\<close>

definition picked :: "(string \<rightharpoonup> staff list) \<Rightarrow> tracker \<Rightarrow> shift \<Rightarrow> string list" where
  "picked by_role tr sh =
     map (\<lambda>p. staff_id (snd p))
       (take (nat (required sh - int (length (get_list (assigned_staff_ids sh)))))
          (sort_reverse (scored_loop tr sh (get_list (by_role (required_role sh))))))"

definition book_all :: "tracker \<Rightarrow> shift \<Rightarrow> string list \<Rightarrow> tracker" where
  "book_all tr sh sids = foldl (\<lambda>tr sid. book tr sid sh) tr sids"

text \<open>The assigned list the store holds for a shift after the pass: the one written by
  the update, or else the one it had.\<close>

definition stored_ids :: "shift \<Rightarrow> outcome \<Rightarrow> string list" where
  "stored_ids sh out =
     (case out_update out of
        None \<Rightarrow> get_list (assigned_staff_ids sh)
      | Some m \<Rightarrow> mut_assigned_staff_ids m)"

text \<open>The stored document after the update, as the next pass fetches it.\<close>

definition merge_back :: "shift \<Rightarrow> outcome \<Rightarrow> shift" where
  "merge_back sh out =
     (case out_update out of
        None \<Rightarrow> sh
      | Some m \<Rightarrow> sh\<lparr>assigned_staff_ids := Some (mut_assigned_staff_ids m), status := mut_status m\<rparr>)"

text \<open>The tracker with which the loop over the shifts starts.\<close>

definition seeded_tracker :: "datetime option \<Rightarrow> shift list \<Rightarrow> staff list \<Rightarrow> tracker" where
  "seeded_tracker req_date db_shifts db_staff =
     preload (init_tracker (fetch_staff db_staff)) (fetch_shifts req_date db_shifts)"

text \<open>An update without its time stamp.\<close>

definition mut_core :: "mutation \<Rightarrow> string \<times> string list \<times> string" where
  "mut_core m = (mut_shift_id m, mut_assigned_staff_ids m, mut_status m)"

subsection \<open>Zero-padded times\<close>

text \<open>The time \<open>h:m\<close> written with two digits each, as the schema asks for.\<close>

definition digit_char :: "nat \<Rightarrow> char" where
  "digit_char n = ''0123456789'' ! n"

definition hhmm :: "nat \<Rightarrow> nat \<Rightarrow> string" where
  "hhmm h m = [digit_char (h div 10), digit_char (h mod 10), CHR '':'',
               digit_char (m div 10), digit_char (m mod 10)]"

subsection \<open>Scenario data\<close>

text \<open>2024-01-01, a Monday, and the day before.\<close>

definition monday :: datetime where
  "monday = \<lparr>ordinal = 738886, usec = 0\<rparr>"

definition sunday :: datetime where
  "sunday = \<lparr>ordinal = 738885, usec = 0\<rparr>"

definition on_monday :: "string \<Rightarrow> string \<Rightarrow> staff_availability" where
  "on_monday s e = \<lparr>av_day = ''mon'', av_start = s, av_end = e\<rparr>"

definition cna :: "string \<Rightarrow> string option \<Rightarrow> staff_availability list \<Rightarrow> staff" where
  "cna sid pref av =
     \<lparr>staff_id = sid, role = ''cna'', skills = Some [], max_hours_per_week = Some 40,
      preferred_shift = pref, availability = Some av, is_active = True\<rparr>"

definition cna_shift ::
    "string \<Rightarrow> datetime \<Rightarrow> string \<Rightarrow> string \<Rightarrow> int \<Rightarrow> string list option \<Rightarrow> shift" where
  "cna_shift i d s e n a =
     \<lparr>shift_id = i, date = d, shift_type = ''day'', start_time = s, end_time = e,
      required_role = ''cna'', required_count = Some n, assigned_staff_ids = a,
      status = ''planned''\<rparr>"

definition staff_A :: "staff list" where
  "staff_A =
     [cna ''s1'' None [on_monday ''06:00'' ''18:00''],
      cna ''s2'' None [on_monday ''06:00'' ''18:00''],
      cna ''s3'' None []]"

definition staff_D :: "staff list" where
  "staff_D = [cna ''s1'' None [on_monday ''06:00'' ''18:00'']]"

definition shifts_D :: "shift list" where
  "shifts_D =
     [cna_shift ''a'' monday ''09:00'' ''13:00'' 1 None,
      cna_shift ''b'' monday ''12:00'' ''16:00'' 1 None]"

definition tuesday :: datetime where
  "tuesday = \<lparr>ordinal = 738887, usec = 0\<rparr>"

text \<open>Stored shifts of one week: \<open>s1\<close> works eight hours on Tuesday, and Monday's shift
  is open.\<close>

definition shifts_W :: "shift list" where
  "shifts_W =
     [cna_shift ''x'' tuesday ''08:00'' ''16:00'' 1 (Some [''s1'']),
      cna_shift ''y'' monday ''08:00'' ''16:00'' 1 (Some [])]"

text \<open>An evening shift and a night shift of the same date, which share the hour from
  22:00 to 23:00, and one member of staff who is available all Monday; once as
  documents without the field \<^verbatim>\<open>assigned_staff_ids\<close> and once with the empty list.\<close>

definition staff_N :: "staff list" where
  "staff_N = [cna ''s1'' None [on_monday ''00:00'' ''23:59'']]"

definition shifts_N :: "string list option \<Rightarrow> shift list" where
  "shifts_N a =
     [cna_shift ''e'' monday ''14:00'' ''23:00'' 1 a,
      cna_shift ''n'' monday ''22:00'' ''06:00'' 1 a]"

subsection \<open>The time a shift covers\<close>

text \<open>
  In minutes from midnight of its date: from its start for its duration, as
  \<open>shift_duration_hours\<close> measures it, so that a shift which ends at or before its start
  runs past midnight. Two shifts of one date intersect when each starts before the
  other ends.
\<close>

definition covers :: "shift \<Rightarrow> (real \<times> real) option" where
  "covers sh =
     (case strptime_HM (start_time sh) of
        None \<Rightarrow> None
      | Some (h, m) \<Rightarrow>
          (case strptime_HM (end_time sh) of
             None \<Rightarrow> None
           | Some _ \<Rightarrow> Some (real (60 * h + m), real (60 * h + m) + 60 * shift_duration_hours sh)))"

definition windows_intersect :: "shift \<Rightarrow> shift \<Rightarrow> bool" where
  "windows_intersect sh1 sh2 =
     (case covers sh1 of
        None \<Rightarrow> False
      | Some (s1, e1) \<Rightarrow>
          (case covers sh2 of
             None \<Rightarrow> False
           | Some (s2, e2) \<Rightarrow> s1 < e2 \<and> s2 < e1))"

section \<open>Evaluation\<close>

lemmas scenario_defs = monday_def sunday_def tuesday_def on_monday_def cna_def cna_shift_def staff_A_def

lemmas strptime_defs = strptime_HM_def alts_H_def alts_M_def is_digit_def digit_val_def

lemmas pass_defs =
  plan_assignments_def process_shift_def staff_by_role_def preload_def init_tracker_def
  required_def truthy_def get_list_def is_available_def day_key_def has_overlap_def slots_of_def
  hours_of_def score_def sort_reverse_def book_def window_def shift_duration_hours_def
  timedelta_seconds_def time_overlap_def updates_def List.map_filter_def auto_assign_def
  fetch_shifts_def fetch_staff_def dt_le_def

section \<open>Availability, scores and durations\<close>

lemma availability_loop_iff:
  "availability_loop ok sh as =
     (ok \<and> (\<exists>a \<in> set as. av_day a = day_key (date sh) \<and> av_start a \<le> start_time sh \<and> end_time sh \<le> av_end a))"
  by (induction as) auto

lemma day_key_abbrev:
  "day_key d \<in> set [''mon'', ''tue'', ''wed'', ''thu'', ''fri'', ''sat'', ''sun'']"
proof -
  have "(ordinal d + 6) mod 7 < 7" by simp
  then have "(ordinal d + 6) mod 7 \<in> {0, 1, 2, 3, 4, 5, 6}" by auto
  then show ?thesis unfolding day_key_def by auto
qed

text \<open>
  Claim C5. A staff member is available for a shift exactly when (a) they have no
  preferred shift or their preferred shift is the shift's type, and (b) one of their
  availability windows is on the shift's day of the week and contains the shift: the
  window starts no later than the shift and ends no earlier.
\<close>

theorem is_available_iff:
  "is_available st sh \<longleftrightarrow>
     (preferred_shift st = None \<or> preferred_shift st = Some (shift_type sh)) \<and>
     (\<exists>a \<in> set (get_list (availability st)).
        av_day a = day_key (date sh) \<and> av_start a \<le> start_time sh \<and> av_end a \<ge> end_time sh)"
  unfolding is_available_def Let_def availability_loop_iff by auto

theorem is_available_iff_witness:
  "is_available (cna ''s1'' None [on_monday ''06:00'' ''18:00'']) (cna_shift ''a'' monday ''08:00'' ''16:00'' 2 None)
   \<and> \<not> is_available (cna ''s1'' None [on_monday ''07:00'' ''14:00'']) (cna_shift ''a'' monday ''08:00'' ''20:00'' 2 None)
   \<and> \<not> is_available (cna ''s1'' (Some ''night'') [on_monday ''06:00'' ''18:00'']) (cna_shift ''a'' monday ''08:00'' ''16:00'' 2 None)"
  using is_available_iff[of "cna ''s1'' None [on_monday ''06:00'' ''18:00'']" "cna_shift ''a'' monday ''08:00'' ''16:00'' 2 None"]
    is_available_iff[of "cna ''s1'' None [on_monday ''07:00'' ''14:00'']" "cna_shift ''a'' monday ''08:00'' ''20:00'' 2 None"]
    is_available_iff[of "cna ''s1'' (Some ''night'') [on_monday ''06:00'' ''18:00'']" "cna_shift ''a'' monday ''08:00'' ''16:00'' 2 None"]
  by (simp add: scenario_defs get_list_def day_key_def)

text \<open>
  Claim C6. The scored list holds, for every candidate that is available and has no
  overlapping booking, in order, the score hours left + preferred bonus + skill bonus:
  hours left is the maximum of 0 and the weekly maximum less the accumulated hours
  (0 for an id the tracker does not know), the preferred bonus is 1 when the preferred
  shift is the shift's type and 0 otherwise, and the skill bonus is the minimum of 2 and
  a tenth of the number of skills.
\<close>

theorem scored_loop_scores:
  "scored_loop tr sh candidates =
     map (\<lambda>s. (max 0 (real_of_int (case max_hours_per_week s of None \<Rightarrow> 40 | Some m \<Rightarrow> m)
                        - (case staff_hours tr (staff_id s) of None \<Rightarrow> 0 | Some h \<Rightarrow> h))
                + (if preferred_shift s = Some (shift_type sh) then 1 else 0)
                + min 2 (0.1 * real (length (get_list (skills s)))), s))
         (filter (\<lambda>s. is_available s sh \<and> \<not> has_overlap tr (staff_id s) sh) candidates)"
  by (induction candidates) (simp_all add: score_def hours_of_def Let_def mult.commute)

theorem scored_loop_scores_witness:
  "map fst (scored_loop (preload (init_tracker staff_A) []) (cna_shift ''a'' monday ''08:00'' ''16:00'' 2 None) staff_A) = [40, 40]"
  using scored_loop_scores[of "preload (init_tracker staff_A) []" "cna_shift ''a'' monday ''08:00'' ''16:00'' 2 None" staff_A]
  by (simp add: scenario_defs pass_defs)

lemma digit_val_le: "is_digit c \<Longrightarrow> digit_val c \<le> 9"
  unfolding is_digit_def digit_val_def less_eq_char_def
  by simp arith

lemma alts_H_range: "(h, r) \<in> set (alts_H s) \<Longrightarrow> h < 24"
  unfolding alts_H_def
  by (auto split: list.splits if_splits dest!: digit_val_le simp: digit_val_def less_eq_char_def is_digit_def)

lemma alts_M_range: "(m, r) \<in> set (alts_M s) \<Longrightarrow> m < 60"
  unfolding alts_M_def
  by (auto split: list.splits if_splits simp: digit_val_def less_eq_char_def is_digit_def)

lemma strptime_HM_range:
  assumes "strptime_HM s = Some (h, m)"
  shows "h < 24 \<and> m < 60"
proof -
  from assms obtain r where f: "List.find (\<lambda>(h, r). case r of [] \<Rightarrow> False | c # r' \<Rightarrow> c = CHR '':'' \<and> alts_M r' \<noteq> []) (alts_H s) = Some (h, r)"
    and m: "\<exists>r'' rest. alts_M (tl r) = (m, r'') # rest"
    unfolding strptime_HM_def
    by (auto split: option.splits list.splits if_splits prod.splits)
  from f have "(h, r) \<in> set (alts_H s)"
    by (auto simp: find_Some_iff in_set_conv_nth)
  then have "h < 24" by (rule alts_H_range)
  moreover from m obtain r'' rest where "alts_M (tl r) = (m, r'') # rest" by blast
  then have "(m, r'') \<in> set (alts_M (tl r))" by simp
  then have "m < 60" by (rule alts_M_range)
  ultimately show ?thesis by simp
qed

text \<open>Every zero-padded time of the 24-hour clock parses, to its hour and minute.\<close>

lemma lt10_cases:
  "n < 10 \<Longrightarrow> n \<in> {0, 1, 2, 3, 4, 5, 6, 7, 8, 9 :: nat}"
  by auto

lemma digit_char_facts:
  assumes "n < 10"
  shows "is_digit (digit_char n)"
    and "digit_val (digit_char n) = n"
    and "digit_char n = CHR ''0'' \<longleftrightarrow> n = 0"
    and "digit_char n = CHR ''1'' \<longleftrightarrow> n = 1"
    and "digit_char n = CHR ''2'' \<longleftrightarrow> n = 2"
    and "CHR ''0'' \<le> digit_char n"
    and "digit_char n \<le> CHR ''3'' \<longleftrightarrow> n \<le> 3"
    and "digit_char n \<le> CHR ''5'' \<longleftrightarrow> n \<le> 5"
  using lt10_cases[OF assms]
  by (auto simp: digit_char_def is_digit_def digit_val_def)

lemma digit_char_012:
  "digit_char 0 = CHR ''0''" "digit_char (Suc 0) = CHR ''1''" "digit_char 2 = CHR ''2''"
  by (simp_all add: digit_char_def numeral_2_eq_2)

lemma digit_val_012:
  "digit_val CHR ''0'' = 0" "digit_val CHR ''1'' = 1" "digit_val CHR ''2'' = 2"
  by (simp_all add: digit_val_def)

lemma alts_H_0:
  "b < 10 \<Longrightarrow> \<exists>rest. alts_H (CHR ''0'' # digit_char b # r) = (b, r) # rest"
  by (simp add: alts_H_def digit_char_facts digit_val_012)

lemma alts_H_1:
  "b < 10 \<Longrightarrow> \<exists>rest. alts_H (CHR ''1'' # digit_char b # r) = (10 + b, r) # rest"
  by (simp add: alts_H_def digit_char_facts digit_val_012)

lemma alts_H_2:
  assumes "b \<le> 3"
  shows "\<exists>rest. alts_H (CHR ''2'' # digit_char b # r) = (20 + b, r) # rest"
proof -
  have "b < 10" using assms by simp
  from digit_char_facts[OF this] assms show ?thesis
    by (simp add: alts_H_def)
qed

lemma alts_H_two_digits:
  assumes a: "a < 10" and b: "b < 10" and h: "10 * a + b < 24"
  shows "\<exists>rest. alts_H (digit_char a # digit_char b # r) = (10 * a + b, r) # rest"
proof -
  consider "a = 0" | "a = 1" | "a = 2" using h by linarith
  then show ?thesis
  proof cases
    case 1
    then show ?thesis using alts_H_0[OF b, of r] by (simp add: digit_char_012)
  next
    case 2
    then show ?thesis using alts_H_1[OF b, of r] by (simp add: digit_char_012)
  next
    case 3
    then have "b \<le> 3" using h by simp
    from alts_H_2[OF this, of r] 3 show ?thesis by (simp add: digit_char_012)
  qed
qed

lemma alts_M_two_digits:
  assumes a: "a < 10" and b: "b < 10" and m: "10 * a + b < 60"
  shows "\<exists>rest. alts_M [digit_char a, digit_char b] = (10 * a + b, []) # rest"
proof -
  have "a \<le> 5" using m by simp
  then show ?thesis
    by (simp add: alts_M_def digit_char_facts[OF a] digit_char_facts[OF b])
qed

lemma strptime_HM_padded:
  assumes "h < 24" and "m < 60"
  shows "strptime_HM (hhmm h m) = Some (h, m)"
proof -
  have d: "h div 10 < 10" "h mod 10 < 10" "m div 10 < 10" "m mod 10 < 10"
    using assms by auto
  have hm: "10 * (h div 10) + h mod 10 = h" "10 * (m div 10) + m mod 10 = m" by auto
  from alts_M_two_digits[OF d(3) d(4)] assms(2) hm(2)
  obtain rm where aM: "alts_M [digit_char (m div 10), digit_char (m mod 10)] = (m, []) # rm"
    by auto
  from alts_H_two_digits[OF d(1) d(2), of "[CHR '':'', digit_char (m div 10), digit_char (m mod 10)]"] assms(1) hm(1)
  obtain rh where aH: "alts_H (hhmm h m) = (h, [CHR '':'', digit_char (m div 10), digit_char (m mod 10)]) # rh"
    unfolding hhmm_def by auto
  show ?thesis
    unfolding strptime_HM_def aH by (simp add: aM)
qed

lemma timedelta_seconds_minutes:
  assumes "h1 < 24" "m1 < 60" "h2 < 24" "m2 < 60"
  shows "timedelta_seconds (h2, m2) (h1, m1) =
           (let d = (int h2 * 60 + int m2) - (int h1 * 60 + int m1)
            in if d \<ge> 0 then 60 * d else 60 * d + 86400)"
proof -
  let ?d = "(int h2 * 60 + int m2) - (int h1 * 60 + int m1)"
  have eq: "(int h2 * 3600 + int m2 * 60) - (int h1 * 3600 + int m1 * 60) = 60 * ?d" by simp
  have lo: "-1440 < ?d" and hi: "?d < 1440" using assms by auto
  show ?thesis
  proof (cases "?d \<ge> 0")
    case True
    then have "(60 * ?d) mod 86400 = 60 * ?d" using hi by (intro mod_pos_pos_trivial) auto
    then show ?thesis using True unfolding timedelta_seconds_def fst_conv snd_conv eq Let_def by simp
  next
    case False
    then have "0 \<le> 60 * ?d + 86400" "60 * ?d + 86400 < 86400" using lo by auto
    then have "(60 * ?d + 86400) mod 86400 = 60 * ?d + 86400" by (intro mod_pos_pos_trivial) auto
    moreover have "(60 * ?d) mod 86400 = (60 * ?d + 86400) mod 86400" by simp
    ultimately show ?thesis using False unfolding timedelta_seconds_def fst_conv snd_conv eq Let_def by simp
  qed
qed

lemma duration_of_minutes:
  fixes d :: int
  assumes lo: "-1440 < d" and hi: "d < 1440"
    and td: "t = (if d \<ge> 0 then 60 * d else 60 * d + 86400)"
  shows "(let diff = real_of_int t / 3600 in if diff \<le> 0 then diff + 24 else diff) =
           (if d > 0 then real_of_int d / 60 else real_of_int d / 60 + 24)
         \<and> 0 < (let diff = real_of_int t / 3600 in if diff \<le> 0 then diff + 24 else diff)
         \<and> (let diff = real_of_int t / 3600 in if diff \<le> 0 then diff + 24 else diff) \<le> 24"
proof -
  have rlo: "- 1440 < real_of_int d" and rhi: "real_of_int d < 1440"
    using lo hi by linarith+
  consider "d > 0" | "d = 0" | "d < 0" by linarith
  then show ?thesis
  proof cases
    case 1
    then have "real_of_int t / 3600 = real_of_int d / 60" using td by simp
    moreover have "0 < real_of_int d" using 1 by simp
    ultimately show ?thesis using 1 rhi unfolding Let_def by simp
  next
    case 2
    then have "real_of_int t / 3600 = 0" using td by simp
    then show ?thesis using 2 unfolding Let_def by simp
  next
    case 3
    then have "real_of_int t / 3600 = real_of_int d / 60 + 24" using td by simp
    moreover have "real_of_int d < 0" using 3 by simp
    ultimately show ?thesis using 3 rlo unfolding Let_def by simp
  qed
qed

text \<open>
  Claim C7. When both times parse (as every zero-padded time of the 24-hour clock does),
  the duration is the difference end - start in hours if that is positive and the
  difference plus 24 hours otherwise (24 hours for equal times); it is above 0 and at
  most 24.
\<close>

theorem shift_duration_hours_parsed:
  assumes "strptime_HM (start_time sh) = Some (h1, m1)"
    and "strptime_HM (end_time sh) = Some (h2, m2)"
  shows "shift_duration_hours sh =
           (if (int h2 * 60 + int m2) - (int h1 * 60 + int m1) > 0
            then real_of_int ((int h2 * 60 + int m2) - (int h1 * 60 + int m1)) / 60
            else real_of_int ((int h2 * 60 + int m2) - (int h1 * 60 + int m1)) / 60 + 24)
         \<and> 0 < shift_duration_hours sh \<and> shift_duration_hours sh \<le> 24"
proof -
  define d where "d = (int h2 * 60 + int m2) - (int h1 * 60 + int m1)"
  from assms have r: "h1 < 24" "m1 < 60" "h2 < 24" "m2 < 60"
    by (auto dest: strptime_HM_range)
  then have lo: "-1440 < d" and hi: "d < 1440" unfolding d_def by auto
  have td: "timedelta_seconds (h2, m2) (h1, m1) = (if d \<ge> 0 then 60 * d else 60 * d + 86400)"
    using timedelta_seconds_minutes[OF r] unfolding Let_def d_def .
  have dur: "shift_duration_hours sh =
      (let diff = real_of_int (timedelta_seconds (h2, m2) (h1, m1)) / 3600
       in if diff \<le> 0 then diff + 24 else diff)"
    unfolding shift_duration_hours_def using assms by simp
  show ?thesis
    unfolding dur d_def[symmetric] by (rule duration_of_minutes[OF lo hi td])
qed

theorem shift_duration_hours_parsed_witness:
  "shift_duration_hours (cna_shift ''a'' monday ''22:00'' ''06:00'' 1 None) = 8"
proof -
  have s: "strptime_HM (start_time (cna_shift ''a'' monday ''22:00'' ''06:00'' 1 None)) = Some (22, 0)"
    by (simp add: cna_shift_def strptime_defs)
  have e: "strptime_HM (end_time (cna_shift ''a'' monday ''22:00'' ''06:00'' 1 None)) = Some (6, 0)"
    by (simp add: cna_shift_def strptime_defs)
  show ?thesis using shift_duration_hours_parsed[OF s e] by simp
qed

lemma duration_default:
  "strptime_HM (start_time sh) = None \<or> strptime_HM (end_time sh) = None \<Longrightarrow>
   shift_duration_hours sh = 8"
  unfolding shift_duration_hours_def by (auto split: option.splits)

section \<open>The pass, shift by shift\<close>

lemma assign_loop_eq:
  "assign_loop sh needed scored assigned tr =
     (assigned @ map (\<lambda>p. staff_id (snd p)) (take (nat (needed - int (length assigned))) scored),
      book_all tr sh (map (\<lambda>p. staff_id (snd p)) (take (nat (needed - int (length assigned))) scored)))"
proof (induction scored arbitrary: assigned tr)
  case Nil
  then show ?case by (simp add: book_all_def)
next
  case (Cons p scored)
  show ?case
  proof (cases "int (length assigned) \<ge> needed")
    case True
    then show ?thesis by (simp add: book_all_def)
  next
    case False
    then have n: "nat (needed - int (length assigned)) = Suc (nat (needed - int (length (assigned @ [staff_id (snd p)]))))"
      by simp
    show ?thesis
      using False unfolding assign_loop.simps n take_Suc_Cons
      by (simp add: Cons.IH book_all_def)
  qed
qed

lemma process_shift_eq:
  "process_shift now by_role tr sh =
     (book_all tr sh (picked by_role tr sh),
      \<lparr>out_assigned = get_list (assigned_staff_ids sh) @ picked by_role tr sh,
       out_doc = (case assigned_staff_ids sh of
                    None \<Rightarrow> sh
                  | Some l \<Rightarrow> sh\<lparr>assigned_staff_ids := Some (l @ picked by_role tr sh)\<rparr>),
       out_update =
         (if assigned_staff_ids sh = None \<and> picked by_role tr sh \<noteq> []
          then Some \<lparr>mut_shift_id = shift_id sh,
                     mut_assigned_staff_ids = picked by_role tr sh,
                     mut_status = ''published'', mut_updated_at = now\<rparr>
          else None)\<rparr>)"
proof (cases "int (length (get_list (assigned_staff_ids sh))) \<ge> required sh")
  case True
  then have "picked by_role tr sh = []" by (simp add: picked_def)
  then show ?thesis using True
    by (simp add: process_shift_def book_all_def Let_def get_list_def split: option.splits)
next
  case False
  then show ?thesis
    by (simp add: process_shift_def Let_def assign_loop_eq picked_def get_list_def split: option.splits)
qed

lemma shifts_loop_all2:
  assumes "\<And>now tr sh. sh \<in> set shifts \<Longrightarrow> P sh (snd (process_shift now by_role tr sh))"
  shows "list_all2 P shifts (shifts_loop clock k by_role tr shifts)"
  using assms
proof (induction shifts arbitrary: k tr)
  case Nil
  then show ?case by simp
next
  case (Cons sh shifts)
  obtain tr' out where p: "process_shift (clock k) by_role tr sh = (tr', out)" by (cases "process_shift (clock k) by_role tr sh")
  have "P sh out" using Cons.prems[of sh "clock k" tr] p by simp
  moreover have "list_all2 P shifts (shifts_loop clock (Suc k) by_role tr' shifts)"
    by (rule Cons.IH) (simp add: Cons.prems)
  ultimately show ?case by (simp add: p)
qed

lemma length_picked:
  "int (length (get_list (assigned_staff_ids sh))) \<le> required sh \<Longrightarrow>
   int (length (get_list (assigned_staff_ids sh) @ picked by_role tr sh)) \<le> required sh"
  unfolding picked_def by simp

section \<open>Properties of the pass\<close>

lemma shifts_loop_length: "length (shifts_loop clock k by_role tr shifts) = length shifts"
  by (induction shifts arbitrary: k tr) (auto split: prod.splits)

lemma plan_all2:
  assumes "\<And>now tr sh. sh \<in> set shifts \<Longrightarrow> P sh (snd (process_shift now (staff_by_role staff) tr sh))"
  shows "list_all2 P shifts (plan_assignments clock shifts staff)"
  unfolding plan_assignments_def by (rule shifts_loop_all2) (rule assms)

lemma process_shift_skip:
  assumes "required sh \<le> int (length (get_list (assigned_staff_ids sh)))"
  shows "snd (process_shift now by_role tr sh) =
           \<lparr>out_assigned = get_list (assigned_staff_ids sh), out_doc = sh, out_update = None\<rparr>"
    and "fst (process_shift now by_role tr sh) = tr"
  using assms by (simp_all add: process_shift_def Let_def)

text \<open>
  Claim C4. If every shift of the snapshot has at most as many assigned ids as it requires,
  then after the pass so has every shift: the local list, the list in the fetched
  document and the list the store holds are all within the required count. A shift
  that already has as many ids as it requires is skipped: its list and document are
  unchanged and no update is issued.
\<close>

theorem assigned_within_required:
  assumes "\<forall>sh \<in> set shifts. int (length (get_list (assigned_staff_ids sh))) \<le> required sh"
    and "i < length shifts"
  shows "int (length (out_assigned (plan_assignments clock shifts staff ! i))) \<le> required (shifts ! i)
       \<and> int (length (stored_ids (shifts ! i) (plan_assignments clock shifts staff ! i))) \<le> required (shifts ! i)
       \<and> int (length (get_list (assigned_staff_ids (out_doc (plan_assignments clock shifts staff ! i)))))
            \<le> required (shifts ! i)
       \<and> (required (shifts ! i) \<le> int (length (get_list (assigned_staff_ids (shifts ! i)))) \<longrightarrow>
            plan_assignments clock shifts staff ! i =
              \<lparr>out_assigned = get_list (assigned_staff_ids (shifts ! i)), out_doc = shifts ! i,
               out_update = None\<rparr>)"
proof -
  let ?P = "\<lambda>sh out.
       int (length (out_assigned out)) \<le> required sh
     \<and> int (length (stored_ids sh out)) \<le> required sh
     \<and> int (length (get_list (assigned_staff_ids (out_doc out)))) \<le> required sh
     \<and> (required sh \<le> int (length (get_list (assigned_staff_ids sh))) \<longrightarrow>
          out = \<lparr>out_assigned = get_list (assigned_staff_ids sh), out_doc = sh, out_update = None\<rparr>)"
  have "list_all2 ?P shifts (plan_assignments clock shifts staff)"
  proof (rule plan_all2)
    fix now tr sh
    assume "sh \<in> set shifts"
    then have le: "int (length (get_list (assigned_staff_ids sh))) \<le> required sh"
      using assms(1) by blast
    have len: "int (length (get_list (assigned_staff_ids sh) @ picked (staff_by_role staff) tr sh)) \<le> required sh"
      by (rule length_picked[OF le])
    have "int (length (picked (staff_by_role staff) tr sh)) \<le> required sh"
      using len by simp
    then show "?P sh (snd (process_shift now (staff_by_role staff) tr sh))"
      using le len process_shift_skip(1)[of sh now "staff_by_role staff" tr]
      by (auto simp: process_shift_eq stored_ids_def get_list_def split: option.splits)
  qed
  then show ?thesis using assms(2) by (simp add: list_all2_conv_all_nth)
qed

theorem assigned_within_required_witness:
  "int (length (out_assigned (plan_assignments (\<lambda>_. monday) [cna_shift ''a'' monday ''08:00'' ''16:00'' 2 None] staff_A ! 0))) \<le> 2
   \<and> out_assigned (plan_assignments (\<lambda>_. monday) [cna_shift ''a'' monday ''08:00'' ''16:00'' 2 None] staff_A ! 0) = [''s1'', ''s2'']"
  using assigned_within_required[of "[cna_shift ''a'' monday ''08:00'' ''16:00'' 2 None]" 0 "\<lambda>_. monday" staff_A]
  by (simp add: scenario_defs pass_defs strptime_defs)


lemma process_shift_appends:
  "(required sh \<le> int (length (get_list (assigned_staff_ids sh))) \<longrightarrow>
      out_update (snd (process_shift now by_role tr sh)) = None
      \<and> out_assigned (snd (process_shift now by_role tr sh)) = get_list (assigned_staff_ids sh))
   \<and> (\<exists>new. out_assigned (snd (process_shift now by_role tr sh)) = get_list (assigned_staff_ids sh) @ new)
   \<and> (\<forall>m. out_update (snd (process_shift now by_role tr sh)) = Some m \<longrightarrow>
         (\<exists>new. mut_assigned_staff_ids m = get_list (assigned_staff_ids sh) @ new)
         \<and> int (length (get_list (assigned_staff_ids sh))) < required sh)"
proof (cases "required sh \<le> int (length (get_list (assigned_staff_ids sh)))")
  case True
  then show ?thesis by (simp add: process_shift_skip)
next
  case False
  then show ?thesis by (auto simp: process_shift_eq get_list_def)
qed

text \<open>
  Claim C9. A second pass over the shifts of a first pass, with the updates of the first
  merged back: a shift that has reached its required count gets no update and keeps
  its list; for every shift the second pass only appends to the list it finds, and an
  update is issued only for a shift below its required count, with a list that extends
  the one found.
\<close>

theorem rerun_only_appends:
  assumes "i < length shifts"
  shows "let merged = map (\<lambda>(sh, out). merge_back sh out) (zip shifts (plan_assignments clock shifts staff));
             before = get_list (assigned_staff_ids (merged ! i));
             out2 = plan_assignments clock' merged staff ! i
         in (required (merged ! i) \<le> int (length before) \<longrightarrow>
               out_update out2 = None \<and> out_assigned out2 = before)
          \<and> (\<exists>new. out_assigned out2 = before @ new)
          \<and> (\<forall>m. out_update out2 = Some m \<longrightarrow>
                (\<exists>new. mut_assigned_staff_ids m = before @ new) \<and> int (length before) < required (merged ! i))"
proof -
  define merged where "merged = map (\<lambda>(sh, out). merge_back sh out) (zip shifts (plan_assignments clock shifts staff))"
  let ?Q = "\<lambda>sh out.
       (required sh \<le> int (length (get_list (assigned_staff_ids sh))) \<longrightarrow>
          out_update out = None \<and> out_assigned out = get_list (assigned_staff_ids sh))
     \<and> (\<exists>new. out_assigned out = get_list (assigned_staff_ids sh) @ new)
     \<and> (\<forall>m. out_update out = Some m \<longrightarrow>
           (\<exists>new. mut_assigned_staff_ids m = get_list (assigned_staff_ids sh) @ new)
           \<and> int (length (get_list (assigned_staff_ids sh))) < required sh)"
  have "length merged = length shifts"
    unfolding merged_def plan_assignments_def by (simp add: shifts_loop_length)
  then have i: "i < length merged" using assms by simp
  have "list_all2 ?Q merged (plan_assignments clock' merged staff)"
    by (rule plan_all2) (rule process_shift_appends)
  then have "?Q (merged ! i) (plan_assignments clock' merged staff ! i)"
    using i by (simp add: list_all2_conv_all_nth)
  then show ?thesis unfolding merged_def[symmetric] Let_def .
qed

theorem rerun_only_appends_witness:
  "out_update (plan_assignments (\<lambda>_. sunday)
      (map (\<lambda>(sh, out). merge_back sh out)
         (zip [cna_shift ''a'' monday ''08:00'' ''16:00'' 2 None]
              (plan_assignments (\<lambda>_. monday) [cna_shift ''a'' monday ''08:00'' ''16:00'' 2 None] staff_A)))
      staff_A ! 0) = None
   \<and> out_assigned (plan_assignments (\<lambda>_. sunday)
      (map (\<lambda>(sh, out). merge_back sh out)
         (zip [cna_shift ''a'' monday ''08:00'' ''16:00'' 2 None]
              (plan_assignments (\<lambda>_. monday) [cna_shift ''a'' monday ''08:00'' ''16:00'' 2 None] staff_A)))
      staff_A ! 0) = [''s1'', ''s2'']"
  using rerun_only_appends[of 0 "[cna_shift ''a'' monday ''08:00'' ''16:00'' 2 None]" "\<lambda>_. monday" staff_A "\<lambda>_. sunday"]
  by (simp add: scenario_defs pass_defs strptime_defs merge_back_def Let_def)

lemma field_present_no_update:
  "assigned_staff_ids sh \<noteq> None \<Longrightarrow> out_update (snd (process_shift now by_role tr sh)) = None"
  by (simp add: process_shift_eq)

lemma field_absent_update:
  "assigned_staff_ids sh = None \<Longrightarrow>
   out_update (snd (process_shift now by_role tr sh)) =
     (if picked by_role tr sh \<noteq> []
      then Some \<lparr>mut_shift_id = shift_id sh, mut_assigned_staff_ids = picked by_role tr sh,
                 mut_status = ''published'', mut_updated_at = now\<rparr>
      else None)"
  by (simp add: process_shift_eq)

text \<open>
  Claim C1, at Scenario A with the field \<^verbatim>\<open>assigned_staff_ids\<close> present and empty:
  the two available staff are appended to the list, and no update is issued.
\<close>

theorem scenario_A_no_update:
  "auto_assign (\<lambda>_. monday) None [cna_shift ''a'' monday ''08:00'' ''16:00'' 2 (Some [])] staff_A = []
   \<and> map out_assigned (plan_assignments (\<lambda>_. monday) [cna_shift ''a'' monday ''08:00'' ''16:00'' 2 (Some [])] staff_A)
       = [[''s1'', ''s2'']]"
  by (simp add: scenario_defs pass_defs strptime_defs)

text \<open>
  Claim C8. A shift whose start or end time does not parse has the duration 8: the parse
  error is caught, and a pass over any list of shifts that contains it has an outcome
  for every shift of the list.
\<close>

theorem malformed_time_default:
  assumes "strptime_HM (start_time sh) = None \<or> strptime_HM (end_time sh) = None"
  shows "shift_duration_hours sh = 8
       \<and> length (plan_assignments clock (before @ sh # after) staff) = length (before @ sh # after)"
  using duration_default[OF assms] unfolding plan_assignments_def by (simp add: shifts_loop_length)

theorem malformed_time_default_witness:
  "shift_duration_hours (cna_shift ''a'' monday ''8am'' ''16:00'' 1 None) = 8
   \<and> map out_assigned (plan_assignments (\<lambda>_. monday)
        [cna_shift ''a'' monday ''8am'' ''16:00'' 1 None, cna_shift ''b'' monday ''08:00'' ''16:00'' 1 None]
        staff_A) = [[''s1''], [''s2'']]"
proof -
  have "strptime_HM (start_time (cna_shift ''a'' monday ''8am'' ''16:00'' 1 None)) = None
        \<or> strptime_HM (end_time (cna_shift ''a'' monday ''8am'' ''16:00'' 1 None)) = None"
    by (simp add: cna_shift_def strptime_defs)
  from malformed_time_default[OF this, of "\<lambda>_. monday" "[]" "[cna_shift ''b'' monday ''08:00'' ''16:00'' 1 None]" staff_A]
  show ?thesis by (simp add: scenario_defs pass_defs strptime_defs)
qed

lemma shifts_loop_clock:
  "map (\<lambda>out. (out_assigned out, out_doc out, map_option mut_core (out_update out)))
       (shifts_loop clock k by_role tr shifts) =
   map (\<lambda>out. (out_assigned out, out_doc out, map_option mut_core (out_update out)))
       (shifts_loop clock' k' by_role tr shifts)"
  by (induction shifts arbitrary: k k' tr) (simp_all add: process_shift_eq mut_core_def)

lemma updates_core:
  "map mut_core (updates outs) =
   List.map_filter (\<lambda>t. snd (snd t))
     (map (\<lambda>out. (out_assigned out, out_doc out, map_option mut_core (out_update out))) outs)"
  unfolding updates_def
  by (induction outs) (auto simp: List.map_filter_simps split: option.splits)

lemma sort_reverse_stable:
  "filter (\<lambda>p. fst p = k) (sort_reverse scored) = filter (\<lambda>p. fst p = k) scored"
proof -
  have "filter (\<lambda>p. fst p = k) (sort_reverse scored) = rev (filter (\<lambda>p. fst p = k) (sort_key fst (rev scored)))"
    unfolding sort_reverse_def by (simp add: rev_filter)
  also have "\<dots> = rev (filter (\<lambda>p. fst p = k) (rev scored))"
    by (simp only: sort_key_stable)
  also have "\<dots> = filter (\<lambda>p. fst p = k) scored"
    by (simp add: rev_filter)
  finally show ?thesis .
qed

lemma sort_reverse_descending: "sorted (rev (map fst (sort_reverse scored)))"
  unfolding sort_reverse_def by (simp add: rev_map)

lemma mset_sort_reverse: "mset (sort_reverse scored) = mset scored"
  unfolding sort_reverse_def by simp

text \<open>
  Claim C10. The updates of a pass, their time stamps apart, are a function of the
  request and the stored data: two runs that differ only in what the clock returns
  issue the same updates in the same order. The sort of the scored candidates is
  a permutation of its input, descending by score, and keeps candidates of equal
  score in their input order.
\<close>

theorem auto_assign_deterministic:
  "map mut_core (auto_assign clock req_date db_shifts db_staff) =
   map mut_core (auto_assign clock' req_date db_shifts db_staff)
   \<and> mset (sort_reverse scored) = mset scored
   \<and> sorted (rev (map fst (sort_reverse scored)))
   \<and> filter (\<lambda>p. fst p = k) (sort_reverse scored) = filter (\<lambda>p. fst p = k) scored"
  unfolding auto_assign_def plan_assignments_def updates_core
  using shifts_loop_clock[of clock 0 _ _ _ clock' 0]
  by (simp add: sort_reverse_stable sort_reverse_descending mset_sort_reverse)

theorem auto_assign_deterministic_witness:
  "map mut_core (auto_assign (\<lambda>_. monday) None [cna_shift ''a'' monday ''08:00'' ''16:00'' 2 None] staff_A)
     = [(''a'', [''s1'', ''s2''], ''published'')]
   \<and> map mut_core (auto_assign (\<lambda>_. sunday) None [cna_shift ''a'' monday ''08:00'' ''16:00'' 2 None] staff_A)
     = [(''a'', [''s1'', ''s2''], ''published'')]"
  using auto_assign_deterministic[of "\<lambda>_. monday" None "[cna_shift ''a'' monday ''08:00'' ''16:00'' 2 None]" staff_A "\<lambda>_. sunday" "[]" 0]
  by (simp add: scenario_defs pass_defs strptime_defs mut_core_def)

section \<open>Seeding the tracker\<close>

lemma hours_of_book:
  "hours_of (book tr sid' sh) sid = hours_of tr sid + (if sid = sid' then shift_duration_hours sh else 0)"
  by (simp add: book_def hours_of_def)

lemma slots_of_book:
  "slots_of (book tr sid' sh) sid = slots_of tr sid @ (if sid = sid' then [window sh] else [])"
  by (simp add: book_def slots_of_def get_list_def)

lemma hours_of_book_all:
  "hours_of (book_all tr sh sids) sid = hours_of tr sid + real (count_list sids sid) * shift_duration_hours sh"
  unfolding book_all_def
  by (induction sids arbitrary: tr) (simp_all add: hours_of_book algebra_simps)

lemma slots_of_book_all:
  "slots_of (book_all tr sh sids) sid = slots_of tr sid @ replicate (count_list sids sid) (window sh)"
  unfolding book_all_def
  by (induction sids arbitrary: tr) (simp_all add: slots_of_book replicate_app_Cons_same)

lemma preload_foldl:
  "preload tr shifts =
     foldl (\<lambda>tr sh. book_all tr sh (get_list (assigned_staff_ids sh))) tr
       (filter (\<lambda>s. truthy (assigned_staff_ids s)) shifts)"
  by (simp add: preload_def book_all_def)

lemma not_truthy_empty: "\<not> truthy v \<Longrightarrow> get_list v = []"
  by (auto simp: truthy_def get_list_def split: option.splits)

lemma hours_of_preload:
  "hours_of (preload tr shifts) sid =
     hours_of tr sid +
     (\<Sum>sh\<leftarrow>shifts. real (count_list (get_list (assigned_staff_ids sh)) sid) * shift_duration_hours sh)"
  unfolding preload_foldl
  by (induction shifts arbitrary: tr) (simp_all add: hours_of_book_all not_truthy_empty)

lemma slots_of_preload:
  "slots_of (preload tr shifts) sid =
     slots_of tr sid @
     concat (map (\<lambda>sh. replicate (count_list (get_list (assigned_staff_ids sh)) sid) (window sh)) shifts)"
  unfolding preload_foldl
  by (induction shifts arbitrary: tr) (simp_all add: slots_of_book_all not_truthy_empty)

lemma init_hours_zero:
  "\<forall>k v. m k = Some v \<longrightarrow> v = (0::real) \<Longrightarrow>
   \<forall>k v. foldl (\<lambda>m s. m(staff_id s \<mapsto> 0)) m staff k = Some v \<longrightarrow> v = 0"
proof (induction staff arbitrary: m)
  case Nil
  then show ?case by simp
next
  case (Cons a staff)
  have "\<forall>k v. (m(staff_id a \<mapsto> 0)) k = Some v \<longrightarrow> v = 0"
    using Cons.prems by auto
  from Cons.IH[OF this] show ?case by simp
qed

lemma hours_of_init: "hours_of (init_tracker staff) sid = 0"
  using init_hours_zero[of Map.empty staff]
  by (auto simp: hours_of_def init_tracker_def split: option.splits)

lemma slots_of_init: "slots_of (init_tracker staff) sid = []"
  by (simp add: slots_of_def init_tracker_def get_list_def)

text \<open>
  What the seeding computes: the loop of a pass starts from the tracker seeded from the
  fetched shifts, those that the status filter and, when a date is requested, the date
  filter let through. A staff id has the sum over these shifts of the shift's duration,
  once for each time the shift lists the id, and the windows of these shifts, in order.
\<close>

theorem tracker_seeded_from_snapshot:
  "hours_of (seeded_tracker req_date db_shifts db_staff) sid =
     (\<Sum>sh\<leftarrow>fetch_shifts req_date db_shifts.
        real (count_list (get_list (assigned_staff_ids sh)) sid) * shift_duration_hours sh)
   \<and> slots_of (seeded_tracker req_date db_shifts db_staff) sid =
       concat (map (\<lambda>sh. replicate (count_list (get_list (assigned_staff_ids sh)) sid) (window sh))
                 (fetch_shifts req_date db_shifts))
   \<and> auto_assign clock req_date db_shifts db_staff =
       updates (shifts_loop clock 0 (staff_by_role (fetch_staff db_staff))
                  (seeded_tracker req_date db_shifts db_staff) (fetch_shifts req_date db_shifts))"
  unfolding seeded_tracker_def auto_assign_def plan_assignments_def
  by (simp add: hours_of_preload slots_of_preload hours_of_init slots_of_init)

theorem tracker_seeded_from_snapshot_witness:
  "hours_of (seeded_tracker (Some monday)
      [cna_shift ''x'' sunday ''08:00'' ''16:00'' 1 (Some [''s1'']),
       cna_shift ''y'' monday ''06:00'' ''12:00'' 1 (Some [''s1'']),
       cna_shift ''z'' monday ''12:00'' ''18:00'' 2 None] staff_A) ''s1'' = 6
   \<and> slots_of (seeded_tracker (Some monday)
      [cna_shift ''x'' sunday ''08:00'' ''16:00'' 1 (Some [''s1'']),
       cna_shift ''y'' monday ''06:00'' ''12:00'' 1 (Some [''s1'']),
       cna_shift ''z'' monday ''12:00'' ''18:00'' 2 None] staff_A) ''s1''
      = [\<lparr>slot_date = monday, slot_start = ''06:00'', slot_end = ''12:00''\<rparr>]"
  using tracker_seeded_from_snapshot[of "Some monday"
      "[cna_shift ''x'' sunday ''08:00'' ''16:00'' 1 (Some [''s1'']),
       cna_shift ''y'' monday ''06:00'' ''12:00'' 1 (Some [''s1'']),
       cna_shift ''z'' monday ''12:00'' ''18:00'' 2 None]" staff_A "''s1''" "\<lambda>_. monday"]
  by (simp add: scenario_defs fetch_shifts_def dt_le_def get_list_def window_def
        shift_duration_hours_def timedelta_seconds_def strptime_defs)

text \<open>
  With Monday requested, the eight hours for which \<open>s1\<close> is assigned on Sunday are
  neither credited nor booked.
\<close>

theorem seeding_ignores_unfetched_shift:
  "hours_of (seeded_tracker (Some monday)
      [cna_shift ''x'' sunday ''08:00'' ''16:00'' 1 (Some [''s1'']),
       cna_shift ''z'' monday ''12:00'' ''18:00'' 2 None] staff_A) ''s1'' = 0
   \<and> slots_of (seeded_tracker (Some monday)
      [cna_shift ''x'' sunday ''08:00'' ''16:00'' 1 (Some [''s1'']),
       cna_shift ''z'' monday ''12:00'' ''18:00'' 2 None] staff_A) ''s1'' = []
   \<and> ''s1'' \<in> set (get_list (assigned_staff_ids (cna_shift ''x'' sunday ''08:00'' ''16:00'' 1 (Some [''s1'']))))
   \<and> shift_duration_hours (cna_shift ''x'' sunday ''08:00'' ''16:00'' 1 (Some [''s1''])) = 8"
  by (simp add: seeded_tracker_def scenario_defs pass_defs strptime_defs)

text \<open>
  Claim C2, on the stored shifts of one week. Without a requested date the tracker
  credits \<open>s1\<close> with the eight hours of Tuesday, and Monday's shift goes to \<open>s2\<close>, who
  has more hours left. With Monday requested the Tuesday shift is not fetched: \<open>s1\<close>
  starts with no hours and no booked window, and Monday's shift goes to \<open>s1\<close>.
\<close>

theorem date_filter_drops_commitments:
  "hours_of (seeded_tracker None shifts_W staff_A) ''s1'' = 8
   \<and> hours_of (seeded_tracker (Some monday) shifts_W staff_A) ''s1'' = 0
   \<and> slots_of (seeded_tracker (Some monday) shifts_W staff_A) ''s1'' = []
   \<and> map out_assigned
         (plan_assignments (\<lambda>_. monday) (fetch_shifts None shifts_W) (fetch_staff staff_A))
       = [[''s1''], [''s2'']]
   \<and> map out_assigned
         (plan_assignments (\<lambda>_. monday) (fetch_shifts (Some monday) shifts_W) (fetch_staff staff_A))
       = [[''s1'']]"
  by (simp add: seeded_tracker_def shifts_W_def scenario_defs pass_defs strptime_defs Let_def)

section \<open>No double-booking\<close>

lemma conflicts_sym: "conflicts (window sh1) sh2 \<longleftrightarrow> conflicts (window sh2) sh1"
  by (auto simp: conflicts_def window_def time_overlap_def)

lemma has_overlap_loop_iff:
  "has_overlap_loop sh slots \<longleftrightarrow> (\<exists>slot \<in> set slots. conflicts slot sh)"
  by (induction slots) (auto simp: conflicts_def)

lemma has_overlap_iff:
  "has_overlap tr sid sh \<longleftrightarrow> (\<exists>slot \<in> set (slots_of tr sid). conflicts slot sh)"
  by (simp add: has_overlap_def has_overlap_loop_iff)

lemma scored_loop_passed:
  "p \<in> set (scored_loop tr sh candidates) \<Longrightarrow> \<not> has_overlap tr (staff_id (snd p)) sh"
  by (induction candidates) (auto split: if_splits)

lemma set_sort_reverse: "set (sort_reverse scored) = set scored"
  by (simp add: sort_reverse_def)

lemma picked_no_conflict:
  assumes "sid \<in> set (picked by_role tr sh)" and "slot \<in> set (slots_of tr sid)"
  shows "\<not> conflicts slot sh"
proof -
  from assms(1) obtain p where
      p: "p \<in> set (take (nat (required sh - int (length (get_list (assigned_staff_ids sh)))))
                      (sort_reverse (scored_loop tr sh (get_list (by_role (required_role sh))))))"
      and sid: "sid = staff_id (snd p)"
    unfolding picked_def by auto
  from p have "p \<in> set (scored_loop tr sh (get_list (by_role (required_role sh))))"
    using set_sort_reverse by (metis in_set_takeD)
  then have "\<not> has_overlap tr (staff_id (snd p)) sh"
    by (rule scored_loop_passed)
  then show ?thesis using assms(2) sid by (auto simp: has_overlap_iff)
qed

text \<open>The loop keeps what the tracker has booked apart from what it assigns.\<close>

lemma shifts_loop_no_conflict:
  assumes cover: "\<forall>sh \<in> set shifts. \<forall>sid \<in> set (get_list (assigned_staff_ids sh)). window sh \<in> set (slots_of tr sid)"
    and clean: "sorted_wrt (\<lambda>sh1 sh2. \<forall>sid. sid \<in> set (get_list (assigned_staff_ids sh1))
                    \<and> sid \<in> set (get_list (assigned_staff_ids sh2)) \<longrightarrow> \<not> conflicts (window sh1) sh2) shifts"
  shows "list_all2 (\<lambda>sh out. \<forall>sid \<in> set (out_assigned out).
             sid \<in> set (get_list (assigned_staff_ids sh)) \<or> (\<forall>slot \<in> set (slots_of tr sid). \<not> conflicts slot sh))
           shifts (shifts_loop clock k by_role tr shifts)
       \<and> sorted_wrt (\<lambda>a b. \<forall>sid. sid \<in> set (out_assigned (snd a)) \<and> sid \<in> set (out_assigned (snd b))
                        \<longrightarrow> \<not> conflicts (window (fst a)) (fst b))
           (zip shifts (shifts_loop clock k by_role tr shifts))"
  using cover clean
proof (induction shifts arbitrary: tr k)
  case Nil
  then show ?case by simp
next
  case (Cons sh rest)
  define new where "new = picked by_role tr sh"
  define tr' where "tr' = book_all tr sh new"
  define outs where "outs = shifts_loop clock (Suc k) by_role tr' rest"
  define out where "out = snd (process_shift (clock k) by_role tr sh)"
  have ps: "process_shift (clock k) by_role tr sh = (tr', out)"
    unfolding out_def tr'_def new_def by (simp add: process_shift_eq)
  have oa: "out_assigned out = get_list (assigned_staff_ids sh) @ new"
    unfolding out_def new_def by (simp add: process_shift_eq)
  have loop: "shifts_loop clock k by_role tr (sh # rest) = out # outs"
    unfolding outs_def by (simp add: ps)
  have grow: "\<And>sid. set (slots_of tr' sid) = set (slots_of tr sid) \<union> (if sid \<in> set new then {window sh} else {})"
    unfolding tr'_def by (auto simp: slots_of_book_all count_list_0_iff)
  have cover': "\<forall>sh2 \<in> set rest. \<forall>sid \<in> set (get_list (assigned_staff_ids sh2)). window sh2 \<in> set (slots_of tr' sid)"
    using Cons.prems(1) grow by auto
  have clean': "sorted_wrt (\<lambda>sh1 sh2. \<forall>sid. sid \<in> set (get_list (assigned_staff_ids sh1))
                    \<and> sid \<in> set (get_list (assigned_staff_ids sh2)) \<longrightarrow> \<not> conflicts (window sh1) sh2) rest"
    using Cons.prems(2) by simp
  note IH = Cons.IH[OF cover' clean', of "Suc k", folded outs_def]
  have head: "\<forall>sid \<in> set (out_assigned out).
      sid \<in> set (get_list (assigned_staff_ids sh)) \<or> (\<forall>slot \<in> set (slots_of tr sid). \<not> conflicts slot sh)"
    using picked_no_conflict[of _ by_role tr sh] unfolding oa new_def by auto
  have tail: "list_all2 (\<lambda>sh2 out2. \<forall>sid \<in> set (out_assigned out2).
             sid \<in> set (get_list (assigned_staff_ids sh2)) \<or> (\<forall>slot \<in> set (slots_of tr sid). \<not> conflicts slot sh2))
           rest outs"
    using IH grow by (auto elim!: list_all2_mono)
  have pairs: "\<forall>b \<in> set (zip rest outs). \<forall>sid. sid \<in> set (out_assigned out) \<and> sid \<in> set (out_assigned (snd b))
                        \<longrightarrow> \<not> conflicts (window sh) (fst b)"
  proof (intro ballI allI impI)
    fix b sid
    assume b: "b \<in> set (zip rest outs)"
      and sid: "sid \<in> set (out_assigned out) \<and> sid \<in> set (out_assigned (snd b))"
    obtain sh2 out2 where b_eq: "b = (sh2, out2)" by (cases b)
    from b b_eq have sh2: "sh2 \<in> set rest" by (auto dest: set_zip_leftD)
    from IH have "list_all2 (\<lambda>sh2 out2. \<forall>sid \<in> set (out_assigned out2).
             sid \<in> set (get_list (assigned_staff_ids sh2)) \<or> (\<forall>slot \<in> set (slots_of tr' sid). \<not> conflicts slot sh2))
           rest outs"
      by (rule conjunct1)
    then have "\<forall>(x, y) \<in> set (zip rest outs). \<forall>sid \<in> set (out_assigned y).
             sid \<in> set (get_list (assigned_staff_ids x)) \<or> (\<forall>slot \<in> set (slots_of tr' sid). \<not> conflicts slot x)"
      unfolding list_all2_iff by (rule conjunct2)
    with b b_eq have a': "\<forall>sid \<in> set (out_assigned out2).
        sid \<in> set (get_list (assigned_staff_ids sh2)) \<or> (\<forall>slot \<in> set (slots_of tr' sid). \<not> conflicts slot sh2)"
      by blast
    have win: "window sh \<in> set (slots_of tr' sid)"
    proof (cases "sid \<in> set new")
      case True
      then show ?thesis using grow by simp
    next
      case False
      then have "sid \<in> set (get_list (assigned_staff_ids sh))" using sid oa by auto
      then have "window sh \<in> set (slots_of tr sid)" using Cons.prems(1) by simp
      then show ?thesis using grow by simp
    qed
    from a' sid b_eq consider
        (old) "sid \<in> set (get_list (assigned_staff_ids sh2))"
      | (fresh) "\<forall>slot \<in> set (slots_of tr' sid). \<not> conflicts slot sh2"
      by auto
    then have "\<not> conflicts (window sh) sh2"
    proof cases
      case old
      show ?thesis
      proof (cases "sid \<in> set new")
        case True
        from old sh2 have "window sh2 \<in> set (slots_of tr sid)" using Cons.prems(1) by simp
        then have "\<not> conflicts (window sh2) sh"
          using picked_no_conflict[of sid by_role tr sh] True unfolding new_def by simp
        then show ?thesis using conflicts_sym by blast
      next
        case False
        then have "sid \<in> set (get_list (assigned_staff_ids sh))" using sid oa by auto
        then show ?thesis using Cons.prems(2) old sh2 by auto
      qed
    next
      case fresh
      then show ?thesis using win by blast
    qed
    then show "\<not> conflicts (window sh) (fst b)" using b_eq by simp
  qed
  show ?case
    unfolding loop using head tail pairs IH by simp
qed

lemma preload_covers:
  assumes "sh \<in> set shifts" and "sid \<in> set (get_list (assigned_staff_ids sh))"
  shows "window sh \<in> set (slots_of (preload tr shifts) sid)"
proof -
  have "count_list (get_list (assigned_staff_ids sh)) sid \<noteq> 0"
    using assms(2) by (simp add: count_list_0_iff)
  then have "0 < count_list (get_list (assigned_staff_ids sh)) sid"
    by simp
  then have "window sh \<in> set (replicate (count_list (get_list (assigned_staff_ids sh)) sid) (window sh))"
    by simp
  then show ?thesis using assms(1) unfolding slots_of_preload by auto
qed

lemma stored_subset:
  "set (stored_ids sh (snd (process_shift now by_role tr sh)))
     \<subseteq> set (out_assigned (snd (process_shift now by_role tr sh)))"
  by (auto simp: process_shift_eq stored_ids_def)

text \<open>
  What the overlap test of the code does guarantee. If no staff id is in the lists of
  two different shifts of the snapshot that are on the same date and overlap by that
  test, then after the pass no staff id is in the lists of two such shifts, neither in
  the lists in memory nor in those the store holds. By that test two windows overlap
  when neither ends at or before the start of the other, in the order of the time
  strings.
\<close>

theorem no_double_booking:
  assumes clean: "\<forall>i j sid. i < length shifts \<and> j < length shifts \<and> i \<noteq> j
              \<and> sid \<in> set (get_list (assigned_staff_ids (shifts ! i)))
              \<and> sid \<in> set (get_list (assigned_staff_ids (shifts ! j)))
              \<longrightarrow> \<not> conflicts (window (shifts ! i)) (shifts ! j)"
    and i: "i < length shifts" and j: "j < length shifts" and ij: "i \<noteq> j"
    and c: "conflicts (window (shifts ! i)) (shifts ! j)"
  shows "\<not> (sid \<in> set (out_assigned (plan_assignments clock shifts staff ! i))
            \<and> sid \<in> set (out_assigned (plan_assignments clock shifts staff ! j)))
       \<and> \<not> (sid \<in> set (stored_ids (shifts ! i) (plan_assignments clock shifts staff ! i))
            \<and> sid \<in> set (stored_ids (shifts ! j) (plan_assignments clock shifts staff ! j)))"
proof -
  define outs where "outs = plan_assignments clock shifts staff"
  let ?R = "\<lambda>a b. \<forall>sid. sid \<in> set (out_assigned (snd a)) \<and> sid \<in> set (out_assigned (snd b))
                        \<longrightarrow> \<not> conflicts (window (fst a)) (fst b)"
  have len: "length outs = length shifts"
    unfolding outs_def plan_assignments_def by (rule shifts_loop_length)
  have cover: "\<forall>sh \<in> set shifts. \<forall>sid \<in> set (get_list (assigned_staff_ids sh)).
      window sh \<in> set (slots_of (preload (init_tracker staff) shifts) sid)"
    by (simp add: preload_covers)
  have clean': "sorted_wrt (\<lambda>sh1 sh2. \<forall>sid. sid \<in> set (get_list (assigned_staff_ids sh1))
                    \<and> sid \<in> set (get_list (assigned_staff_ids sh2)) \<longrightarrow> \<not> conflicts (window sh1) sh2) shifts"
    unfolding sorted_wrt_iff_nth_less using clean by (metis less_trans nat_neq_iff)
  have "sorted_wrt ?R (zip shifts outs)"
    unfolding outs_def plan_assignments_def
    using shifts_loop_no_conflict[OF cover clean'] by (rule conjunct2)
  then have lt: "\<And>a b. a < b \<Longrightarrow> b < length shifts \<Longrightarrow> ?R (zip shifts outs ! a) (zip shifts outs ! b)"
    unfolding sorted_wrt_iff_nth_less using len by simp
  have c': "conflicts (window (shifts ! j)) (shifts ! i)"
    using c conflicts_sym by blast
  have mem: "\<not> (sid \<in> set (out_assigned (outs ! i)) \<and> sid \<in> set (out_assigned (outs ! j)))"
  proof (cases "i < j")
    case True
    from lt[OF True j] show ?thesis using c i j len by auto
  next
    case False
    then have "j < i" using ij by simp
    from lt[OF this i] show ?thesis using c' i j len by auto
  qed
  have "list_all2 (\<lambda>sh out. set (stored_ids sh out) \<subseteq> set (out_assigned out)) shifts outs"
    unfolding outs_def by (rule plan_all2) (rule stored_subset)
  then have sub: "\<And>n. n < length shifts \<Longrightarrow> set (stored_ids (shifts ! n) (outs ! n)) \<subseteq> set (out_assigned (outs ! n))"
    by (simp add: list_all2_conv_all_nth)
  show ?thesis
    using mem sub[OF i] sub[OF j] unfolding outs_def by blast
qed

theorem no_double_booking_witness:
  "map out_assigned (plan_assignments (\<lambda>_. monday) shifts_D staff_D) = [[''s1''], []]
   \<and> map mut_core (updates (plan_assignments (\<lambda>_. monday) shifts_D staff_D)) = [(''a'', [''s1''], ''published'')]
   \<and> conflicts (window (shifts_D ! 0)) (shifts_D ! 1)
   \<and> \<not> (''s1'' \<in> set (stored_ids (shifts_D ! 0) (plan_assignments (\<lambda>_. monday) shifts_D staff_D ! 0))
        \<and> ''s1'' \<in> set (stored_ids (shifts_D ! 1) (plan_assignments (\<lambda>_. monday) shifts_D staff_D ! 1)))"
proof -
  have clean: "\<forall>i j sid. i < length shifts_D \<and> j < length shifts_D \<and> i \<noteq> j
              \<and> sid \<in> set (get_list (assigned_staff_ids (shifts_D ! i)))
              \<and> sid \<in> set (get_list (assigned_staff_ids (shifts_D ! j)))
              \<longrightarrow> \<not> conflicts (window (shifts_D ! i)) (shifts_D ! j)"
    by (auto simp: shifts_D_def cna_shift_def get_list_def nth_Cons')
  have c: "conflicts (window (shifts_D ! 0)) (shifts_D ! 1)"
    by (simp add: shifts_D_def cna_shift_def conflicts_def window_def time_overlap_def)
  have ev: "map out_assigned (plan_assignments (\<lambda>_. monday) shifts_D staff_D) = [[''s1''], []]
     \<and> map mut_core (updates (plan_assignments (\<lambda>_. monday) shifts_D staff_D)) = [(''a'', [''s1''], ''published'')]"
    by (simp add: shifts_D_def staff_D_def scenario_defs pass_defs strptime_defs mut_core_def)
  have "0 < length shifts_D" "1 < length shifts_D" "(0::nat) \<noteq> 1"
    by (simp_all add: shifts_D_def)
  from no_double_booking[OF clean this c, of "''s1''" "\<lambda>_. monday" staff_D] ev c
  show ?thesis by blast
qed

text \<open>
  A snapshot that is double-booked already stays so: the pass removes nothing.
\<close>

theorem double_booked_input_stays:
  "''s1'' \<in> set (stored_ids (cna_shift ''a'' monday ''09:00'' ''13:00'' 1 (Some [''s1'']))
       (plan_assignments (\<lambda>_. monday)
          [cna_shift ''a'' monday ''09:00'' ''13:00'' 1 (Some [''s1'']),
           cna_shift ''b'' monday ''12:00'' ''16:00'' 1 (Some [''s1''])] staff_D ! 0))
   \<and> ''s1'' \<in> set (stored_ids (cna_shift ''b'' monday ''12:00'' ''16:00'' 1 (Some [''s1'']))
       (plan_assignments (\<lambda>_. monday)
          [cna_shift ''a'' monday ''09:00'' ''13:00'' 1 (Some [''s1'']),
           cna_shift ''b'' monday ''12:00'' ''16:00'' 1 (Some [''s1''])] staff_D ! 1))
   \<and> conflicts (window (cna_shift ''a'' monday ''09:00'' ''13:00'' 1 (Some [''s1''])))
        (cna_shift ''b'' monday ''12:00'' ''16:00'' 1 (Some [''s1'']))"
  by (simp add: staff_D_def scenario_defs pass_defs strptime_defs stored_ids_def conflicts_def Let_def)

text \<open>
  Times are compared as strings, so a window that ends after midnight overlaps with
  nothing: one member of staff is assigned to two night shifts of the same hours.
\<close>

lemma overnight_shifts_share_staff:
  "map out_assigned (plan_assignments (\<lambda>_. monday)
      [cna_shift ''n1'' monday ''22:00'' ''06:00'' 1 None,
       cna_shift ''n2'' monday ''22:00'' ''06:00'' 1 None]
      [cna ''s1'' None [on_monday ''22:00'' ''06:00'']]) = [[''s1''], [''s1'']]
   \<and> \<not> conflicts (window (cna_shift ''n1'' monday ''22:00'' ''06:00'' 1 None))
          (cna_shift ''n2'' monday ''22:00'' ''06:00'' 1 None)"
  by (simp add: scenario_defs pass_defs strptime_defs conflicts_def)

text \<open>
  Claim C3, on a snapshot without any assignment: an evening shift from 14:00 to 23:00
  and a night shift from 22:00 to 06:00 of the same date share an hour, and the one
  member of staff is assigned to both. The string test finds no overlap, because the
  night shift's end is before the evening shift's start as a string. For documents
  without the field both lists are written to the store; with the field present the
  lists in memory are the same.
\<close>

theorem overnight_double_booking:
  "map (\<lambda>sh. get_list (assigned_staff_ids sh)) (shifts_N None) = [[], []]
   \<and> map mut_core (updates (plan_assignments (\<lambda>_. monday) (shifts_N None) staff_N))
       = [(''e'', [''s1''], ''published''), (''n'', [''s1''], ''published'')]
   \<and> ''s1'' \<in> set (stored_ids (shifts_N None ! 0) (plan_assignments (\<lambda>_. monday) (shifts_N None) staff_N ! 0))
   \<and> ''s1'' \<in> set (stored_ids (shifts_N None ! 1) (plan_assignments (\<lambda>_. monday) (shifts_N None) staff_N ! 1))
   \<and> map out_assigned (plan_assignments (\<lambda>_. monday) (shifts_N (Some [])) staff_N) = [[''s1''], [''s1'']]
   \<and> ordinal (date (shifts_N None ! 0)) = ordinal (date (shifts_N None ! 1))
   \<and> windows_intersect (shifts_N None ! 0) (shifts_N None ! 1)
   \<and> \<not> conflicts (window (shifts_N None ! 0)) (shifts_N None ! 1)"
  by (simp add: shifts_N_def staff_N_def scenario_defs pass_defs strptime_defs mut_core_def
        stored_ids_def conflicts_def windows_intersect_def covers_def Let_def)

end
